theory Spec2Isabelle
  imports Main "HOL-Library.Word"
begin

text \<open>
  A model of the metrics library of \<^verbatim>\<open>src/metrics_library.cpp\<close> and
  \<^verbatim>\<open>include/metrics_library.h\<close>: the queue that hands snapshots to the writer thread, the
  two metrics, the writer with its background loop and destructor, and the collector.
  Definitions come first, one per member function, in the order of the source; the
  properties follow, grouped by class.
\<close>

section \<open>The hand-off queue (\<^verbatim>\<open>ThreadSafeQueue\<close>)\<close>

text \<open>
  A snapshot is what \<^verbatim>\<open>std::vector<std::pair<std::string, std::string>>\<close> holds: the
  (name, value) pairs of one collection pass, in order.

  The C++ members end in an underscore, which Isabelle does not accept in a name, so the
  fields carry the class as a prefix instead: \<^verbatim>\<open>queue_\<close> is \<open>tsq_queue\<close> and
  \<^verbatim>\<open>stopped_\<close> is \<open>tsq_stopped\<close>. The mutex and the condition variable carry no data;
  each member function below is one critical section, hence one atomic transition.
\<close>

type_synonym MetricSnapshot = "(string \<times> string) list"

record ThreadSafeQueue =
  tsq_queue :: "MetricSnapshot list"
  tsq_stopped :: bool

definition empty_queue :: ThreadSafeQueue where
  "empty_queue = \<lparr>tsq_queue = [], tsq_stopped = False\<rparr>"

definition push :: "ThreadSafeQueue \<Rightarrow> MetricSnapshot \<Rightarrow> ThreadSafeQueue" where
  "push q d = q\<lparr>tsq_queue := tsq_queue q @ [d]\<rparr>"

text \<open>
  \<^verbatim>\<open>tryPop\<close> takes the caller's vector by reference: the model takes its old content
  \<open>d\<close> and returns the flag, the new content and the new queue.
\<close>

definition tryPop :: "ThreadSafeQueue \<Rightarrow> MetricSnapshot \<Rightarrow> bool \<times> MetricSnapshot \<times> ThreadSafeQueue" where
  "tryPop q d =
     (if tsq_queue q = [] then (False, d, q)
      else (True, hd (tsq_queue q), q\<lparr>tsq_queue := tl (tsq_queue q)\<rparr>))"

text \<open>
  \<^verbatim>\<open>waitAndPop\<close> sleeps on the condition variable until
  \<^verbatim>\<open>!queue_.empty() || stopped_\<close>. A call made in a state where that predicate is false
  cannot complete in that state: the model answers \<open>None\<close>, and the call is taken again
  once another thread has changed the queue. The function is \<^verbatim>\<open>void\<close>: on the early
  return the caller's vector is left as it was.
\<close>

definition wait_pred :: "ThreadSafeQueue \<Rightarrow> bool" where
  "wait_pred q = (tsq_queue q \<noteq> [] \<or> tsq_stopped q)"

definition waitAndPop :: "ThreadSafeQueue \<Rightarrow> MetricSnapshot \<Rightarrow> (MetricSnapshot \<times> ThreadSafeQueue) option" where
  "waitAndPop q d =
     (if \<not> wait_pred q then None
      else if tsq_queue q = [] \<and> tsq_stopped q then Some (d, q)
      else Some (hd (tsq_queue q), q\<lparr>tsq_queue := tl (tsq_queue q)\<rparr>))"

definition stop :: "ThreadSafeQueue \<Rightarrow> ThreadSafeQueue" where
  "stop q = q\<lparr>tsq_stopped := True\<rparr>"

text \<open>A consumer that calls \<^verbatim>\<open>tryPop\<close> until it answers false.\<close>

function drain :: "ThreadSafeQueue \<Rightarrow> MetricSnapshot list" where
  "drain q = (case tryPop q [] of (True, d, q') \<Rightarrow> d # drain q' | (False, d, q') \<Rightarrow> [])"
  by pat_completeness auto
termination
  by (relation "measure (\<lambda>q. length (tsq_queue q))") (auto simp: tryPop_def split: if_splits)

text \<open>
  A history of completed calls on one queue, in the order in which they held the lock.
  The run collects what the successful pops handed out: a \<^verbatim>\<open>tryPop\<close> that answered
  true, and a \<^verbatim>\<open>waitAndPop\<close> that found the queue non-empty (it takes its early return
  only on an empty queue). A \<^verbatim>\<open>waitAndPop\<close> that cannot complete where the history puts
  it makes the history impossible (\<open>None\<close>).
\<close>

datatype queue_call = Push MetricSnapshot | TryPop | WaitAndPop | Stop

fun pushed :: "queue_call list \<Rightarrow> MetricSnapshot list" where
  "pushed [] = []"
| "pushed (Push d # cs) = d # pushed cs"
| "pushed (c # cs) = pushed cs"

fun run_calls :: "queue_call list \<Rightarrow> ThreadSafeQueue \<Rightarrow> MetricSnapshot list
    \<Rightarrow> (ThreadSafeQueue \<times> MetricSnapshot list) option" where
  "run_calls [] q out = Some (q, out)"
| "run_calls (Push d # cs) q out = run_calls cs (push q d) out"
| "run_calls (TryPop # cs) q out =
     (case tryPop q [] of
        (True, d, q') \<Rightarrow> run_calls cs q' (out @ [d])
      | (False, d, q') \<Rightarrow> run_calls cs q' out)"
| "run_calls (WaitAndPop # cs) q out =
     (case waitAndPop q [] of
        None \<Rightarrow> None
      | Some (d, q') \<Rightarrow> run_calls cs q' (if tsq_queue q = [] then out else out @ [d]))"
| "run_calls (Stop # cs) q out = run_calls cs (stop q) out"

declare drain.simps [simp del]

section \<open>Metrics (\<^verbatim>\<open>Gauge\<close>, \<^verbatim>\<open>Counter\<close>)\<close>

subsection \<open>Rendering numbers as text\<close>

text \<open>
  The library leaves the rendering to the C++ standard library: \<^verbatim>\<open>std::to_string(int)\<close>
  for a counter, and stream insertion under \<^verbatim>\<open>std::fixed << std::setprecision(2)\<close> for a
  gauge. Both are written out here so that the texts the repository's tests expect
  (\<^verbatim>\<open>"0"\<close>, \<^verbatim>\<open>"10"\<close>, \<^verbatim>\<open>"0.00"\<close>, \<^verbatim>\<open>"42.57"\<close>) can be computed.
\<close>

definition digit_char :: "nat \<Rightarrow> char" where
  "digit_char n = ''0123456789'' ! (n mod 10)"

function dec_digits :: "nat \<Rightarrow> string" where
  "dec_digits n = (if n < 10 then [digit_char n] else dec_digits (n div 10) @ [digit_char n])"
  by pat_completeness auto
termination
  by (relation "measure (\<lambda>n. n)") auto

declare dec_digits.simps [simp del]

definition to_string :: "int \<Rightarrow> string" where
  "to_string i = (if i < 0 then ''-'' @ dec_digits (nat (- i)) else dec_digits (nat i))"

text \<open>
  A \<^verbatim>\<open>double\<close> is a sign with either a magnitude \<open>m * 2 ^ e\<close>, an infinity or a NaN.
  (Every finite binary64 value has this form; the model does not bound \<open>m\<close> and \<open>e\<close>, so
  what holds for every \<open>Finite s m e\<close> holds for every finite \<^verbatim>\<open>double\<close>.)
  The literal \<^verbatim>\<open>0.0\<close> is \<open>Finite False 0 0\<close>.
\<close>

datatype double = Finite bool nat int | Infinity bool | NaN bool

definition round_half_even :: "nat \<Rightarrow> nat \<Rightarrow> nat" where
  "round_half_even a b =
     (let q = a div b; r = a mod b
      in if 2 * r < b then q else if b < 2 * r then q + 1 else if even q then q else q + 1)"

text \<open>The magnitude in hundredths, rounded to nearest, ties to even, from the exact value.\<close>

definition hundredths :: "nat \<Rightarrow> int \<Rightarrow> nat" where
  "hundredths m e =
     (if 0 \<le> e then m * 100 * 2 ^ nat e else round_half_even (m * 100) (2 ^ nat (- e)))"

fun fixed2 :: "double \<Rightarrow> string" where
  "fixed2 (Finite s m e) =
     (if s then ''-'' else []) @ dec_digits (hundredths m e div 100) @ ''.''
       @ [digit_char (hundredths m e div 10), digit_char (hundredths m e)]"
| "fixed2 (Infinity s) = (if s then ''-inf'' else ''inf'')"
| "fixed2 (NaN s) = (if s then ''-nan'' else ''nan'')"

text \<open>What follows the decimal point of a text, if it has one.\<close>

definition fraction_part :: "string \<Rightarrow> string option" where
  "fraction_part s =
     (case dropWhile (\<lambda>c. c \<noteq> CHR ''.'') s of [] \<Rightarrow> None | c # fs \<Rightarrow> Some fs)"

text \<open>
  Reading a rendered text back, independently of how it was produced. A decimal digit is
  worth its position in \<^verbatim>\<open>"0123456789"\<close>; a text of the form sign, digits, point, two
  digits denotes a sign and a number of hundredths. A text of any other form denotes
  nothing.
\<close>

definition is_digit :: "char \<Rightarrow> bool" where
  "is_digit c = (c \<in> set ''0123456789'')"

definition digit_value :: "char \<Rightarrow> nat" where
  "digit_value c = length (takeWhile (\<lambda>d. d \<noteq> c) ''0123456789'')"

definition digits_value :: "string \<Rightarrow> nat" where
  "digits_value ds = foldl (\<lambda>acc c. 10 * acc + digit_value c) 0 ds"

definition parse_fixed2 :: "string \<Rightarrow> (bool \<times> nat) option" where
  "parse_fixed2 t =
     (let neg = (take 1 t = ''-'');
          body = (if neg then drop 1 t else t);
          ip = takeWhile (\<lambda>c. c \<noteq> CHR ''.'') body;
          rest = dropWhile (\<lambda>c. c \<noteq> CHR ''.'') body
      in if ip \<noteq> [] \<and> length rest = 3 \<and> list_all is_digit (ip @ drop 1 rest)
         then Some (neg, digits_value (ip @ drop 1 rest))
         else None)"

text \<open>
  \<open>n\<close> hundredths is the magnitude \<open>m * 2 ^ e\<close> rounded to the nearest hundredth, ties to
  even: for a negative exponent, with \<open>D = 2 ^ - e\<close>, the distance between \<open>100 * m\<close> and
  \<open>n * D\<close> is at most \<open>D / 2\<close>, and where it is exactly \<open>D / 2\<close> the last digit is even.
\<close>

definition nearest_hundredth :: "nat \<Rightarrow> int \<Rightarrow> nat \<Rightarrow> bool" where
  "nearest_hundredth m e n =
     (if 0 \<le> e then n = m * 100 * 2 ^ nat e
      else 2 * \<bar>int (m * 100) - int (n * 2 ^ nat (- e))\<bar> \<le> 2 ^ nat (- e)
           \<and> (if 2 * \<bar>int (m * 100) - int (n * 2 ^ nat (- e))\<bar> = 2 ^ nat (- e) then even n else True))"

subsection \<open>Gauge\<close>

record Gauge =
  gauge_name :: string
  gauge_value :: double

definition Gauge_new :: "string \<Rightarrow> Gauge" where
  "Gauge_new name = \<lparr>gauge_name = name, gauge_value = Finite False 0 0\<rparr>"

definition Gauge_update :: "Gauge \<Rightarrow> double \<Rightarrow> Gauge" where
  "Gauge_update g v = g\<lparr>gauge_value := v\<rparr>"

definition Gauge_getName :: "Gauge \<Rightarrow> string" where
  "Gauge_getName g = gauge_name g"

definition Gauge_getValueAsString :: "Gauge \<Rightarrow> string" where
  "Gauge_getValueAsString g = fixed2 (gauge_value g)"

definition Gauge_reset :: "Gauge \<Rightarrow> Gauge" where
  "Gauge_reset g = g\<lparr>gauge_value := Finite False 0 0\<rparr>"

subsection \<open>Counter\<close>

text \<open>
  \<^verbatim>\<open>value_\<close> is an \<^verbatim>\<open>int\<close>: 32 bits, two's complement. \<^verbatim>\<open>value_ += value\<close> is the
  machine addition, which wraps where the mathematical sum leaves the range of \<^verbatim>\<open>int\<close>
  (the C++ standard leaves that case undefined; wrapping is what the hardware does).
\<close>

record Counter =
  counter_name :: string
  counter_value :: "32 word"

definition Counter_new :: "string \<Rightarrow> Counter" where
  "Counter_new name = \<lparr>counter_name = name, counter_value = 0\<rparr>"

definition Counter_increment :: "Counter \<Rightarrow> 32 word \<Rightarrow> Counter" where
  "Counter_increment c v = c\<lparr>counter_value := counter_value c + v\<rparr>"

text \<open>The declaration is \<^verbatim>\<open>void increment(int value = 1)\<close>.\<close>

definition Counter_increment_default :: "Counter \<Rightarrow> Counter" where
  "Counter_increment_default c = Counter_increment c 1"

definition Counter_getName :: "Counter \<Rightarrow> string" where
  "Counter_getName c = counter_name c"

definition Counter_getValueAsString :: "Counter \<Rightarrow> string" where
  "Counter_getValueAsString c = to_string (sint (counter_value c))"

definition Counter_reset :: "Counter \<Rightarrow> Counter" where
  "Counter_reset c = c\<lparr>counter_value := 0\<rparr>"

text \<open>Whether the running total stays an \<^verbatim>\<open>int\<close> after each of the increments.\<close>

definition is_int32 :: "int \<Rightarrow> bool" where
  "is_int32 i = (- 2147483648 \<le> i \<and> i \<le> 2147483647)"

fun stays_int32 :: "int \<Rightarrow> 32 word list \<Rightarrow> bool" where
  "stays_int32 acc [] = True"
| "stays_int32 acc (d # ds) = (is_int32 (acc + sint d) \<and> stays_int32 (acc + sint d) ds)"

subsection \<open>The \<^verbatim>\<open>Metric\<close> interface\<close>

datatype Metric = GaugeObj Gauge | CounterObj Counter

fun getName :: "Metric \<Rightarrow> string" where
  "getName (GaugeObj g) = Gauge_getName g"
| "getName (CounterObj c) = Counter_getName c"

fun getValueAsString :: "Metric \<Rightarrow> string" where
  "getValueAsString (GaugeObj g) = Gauge_getValueAsString g"
| "getValueAsString (CounterObj c) = Counter_getValueAsString c"

fun reset :: "Metric \<Rightarrow> Metric" where
  "reset (GaugeObj g) = GaugeObj (Gauge_reset g)"
| "reset (CounterObj c) = CounterObj (Counter_reset c)"

text \<open>The text of a metric's zero: \<^verbatim>\<open>0.0\<close> for a gauge, \<^verbatim>\<open>0\<close> for a counter.\<close>

fun zero_text :: "Metric \<Rightarrow> string" where
  "zero_text (GaugeObj g) = ''0.00''"
| "zero_text (CounterObj c) = ''0''"

section \<open>The writer (\<^verbatim>\<open>MetricsWriter\<close>)\<close>

text \<open>
  \<^verbatim>\<open>MetricsWriter::run\<close> executes on the thread the constructor starts. The model cuts it
  at the places where the thread meets the other threads: the test of \<^verbatim>\<open>running_\<close>
  (an atomic flag), and the two queue calls (one critical section each). \<open>run_pc\<close> names
  the places; the local vector \<^verbatim>\<open>metrics\<close> is carried where it is live.

  \<^descr> \<open>AtOpen\<close>: entry, before \<^verbatim>\<open>std::ofstream file(filename_, std::ios::app)\<close>;
  \<^descr> \<open>AtLoopHead\<close>: before the test \<^verbatim>\<open>while (running_)\<close>;
  \<^descr> \<open>AtWaitAndPop\<close>: \<^verbatim>\<open>metrics\<close> is freshly empty, before \<^verbatim>\<open>queue_.waitAndPop(metrics)\<close>;
  \<^descr> \<open>AtTryPop m\<close>: before \<^verbatim>\<open>if (metrics.empty() && queue_.tryPop(metrics)) continue;\<close>;
  \<^descr> \<open>AtWrite m\<close>: before \<^verbatim>\<open>if (!metrics.empty()) { ... }\<close>;
  \<^descr> \<open>Returned\<close>: \<^verbatim>\<open>run\<close> has returned, the thread can be joined;
  \<^descr> \<open>Threw msg\<close>: \<^verbatim>\<open>run\<close> has thrown \<^verbatim>\<open>std::runtime_error(msg)\<close>. Nothing on the
    thread catches it, so \<^verbatim>\<open>std::terminate\<close> ends the process.
\<close>

datatype run_pc =
    AtOpen
  | AtLoopHead
  | AtWaitAndPop
  | AtTryPop MetricSnapshot
  | AtWrite MetricSnapshot
  | Returned
  | Threw string

record MetricsWriter =
  mw_filename :: string
  mw_queue :: ThreadSafeQueue
  mw_thread :: run_pc
  mw_running :: bool

text \<open>
  The constructor stores the name, sets \<^verbatim>\<open>running_\<close> and starts the thread; the new
  thread stands at the entry of \<^verbatim>\<open>run\<close>. The constructor does not touch the file. Its
  result is a sum so that an exception reaching the constructing caller would have a place
  (\<open>Inl\<close>, with the message); the body has no statement that throws one.
\<close>

definition MetricsWriter_new :: "string \<Rightarrow> string + MetricsWriter" where
  "MetricsWriter_new filename =
     Inr \<lparr>mw_filename = filename, mw_queue = empty_queue, mw_thread = AtOpen, mw_running = True\<rparr>"

definition MetricsWriter_write :: "MetricsWriter \<Rightarrow> MetricSnapshot \<Rightarrow> MetricsWriter" where
  "MetricsWriter_write w metrics = w\<lparr>mw_queue := push (mw_queue w) metrics\<rparr>"

text \<open>
  One line of the file: the time stamp, then \<^verbatim>\<open>" \"" << name << "\" " << value\<close> for each
  pair, then a newline. The stamp is read from the system clock; the model takes the text
  of the reading as an input of the step that writes.
\<close>

definition format_line :: "string \<Rightarrow> MetricSnapshot \<Rightarrow> string" where
  "format_line stamp metrics =
     stamp @ concat (map (\<lambda>(name, val). [CHR '' '', CHR 0x22] @ name @ [CHR 0x22, CHR '' ''] @ val) metrics)
       @ [CHR 0x0A]"

text \<open>
  A running writer: the object, the file it names (\<open>None\<close> when the file cannot be opened
  for appending, otherwise its lines), and how far the owner has got in the destructor.

  \<^descr> \<open>Live\<close>: the destructor has not begun;
  \<^descr> \<open>RunningCleared\<close>: after \<^verbatim>\<open>running_ = false\<close>;
  \<^descr> \<open>QueueStopped\<close>: after \<^verbatim>\<open>queue_.stop()\<close>, at \<^verbatim>\<open>writer_thread_.join()\<close>;
  \<^descr> \<open>Destroyed\<close>: the join has returned, and the destructor with it.
\<close>

datatype owner_pc = Live | RunningCleared | QueueStopped | Destroyed

record process =
  writer :: MetricsWriter
  sink :: "string list option"
  owner :: owner_pc

text \<open>Constructing a writer named \<open>filename\<close> where the file system has \<open>file\<close> under that name.\<close>

definition start :: "string list option \<Rightarrow> string \<Rightarrow> string + process" where
  "start file filename =
     (case MetricsWriter_new filename of
        Inl e \<Rightarrow> Inl e
      | Inr w \<Rightarrow> Inr \<lparr>writer = w, sink = file, owner = Live\<rparr>)"

definition at_pc :: "process \<Rightarrow> run_pc \<Rightarrow> process" where
  "at_pc s pc = s\<lparr>writer := (writer s)\<lparr>mw_thread := pc\<rparr>\<rparr>"

definition with_queue :: "process \<Rightarrow> ThreadSafeQueue \<Rightarrow> process" where
  "with_queue s q = s\<lparr>writer := (writer s)\<lparr>mw_queue := q\<rparr>\<rparr>"

text \<open>
  One step of \<^verbatim>\<open>run\<close>, from one place to the next. \<open>None\<close>: the thread cannot move
  (it sleeps in \<^verbatim>\<open>waitAndPop\<close>, or it has ended).
\<close>

definition run_step :: "string \<Rightarrow> process \<Rightarrow> process option" where
  "run_step stamp s =
     (case mw_thread (writer s) of
        AtOpen \<Rightarrow>
          (if sink s = None
           then Some (at_pc s (Threw (''Error opening file: '' @ mw_filename (writer s))))
           else Some (at_pc s AtLoopHead))
      | AtLoopHead \<Rightarrow>
          (if mw_running (writer s) then Some (at_pc s AtWaitAndPop) else Some (at_pc s Returned))
      | AtWaitAndPop \<Rightarrow>
          (case waitAndPop (mw_queue (writer s)) [] of
             None \<Rightarrow> None
           | Some (metrics, q') \<Rightarrow> Some (at_pc (with_queue s q') (AtTryPop metrics)))
      | AtTryPop metrics \<Rightarrow>
          (if metrics = []
           then (case tryPop (mw_queue (writer s)) metrics of
                   (True, metrics', q') \<Rightarrow> Some (at_pc (with_queue s q') AtLoopHead)
                 | (False, metrics', q') \<Rightarrow> Some (at_pc (with_queue s q') (AtWrite metrics')))
           else Some (at_pc s (AtWrite metrics)))
      | AtWrite metrics \<Rightarrow>
          (if metrics \<noteq> []
           then Some (at_pc (s\<lparr>sink := map_option (\<lambda>ls. ls @ [format_line stamp metrics]) (sink s)\<rparr>)
                        AtLoopHead)
           else Some (at_pc s AtLoopHead))
      | Returned \<Rightarrow> None
      | Threw msg \<Rightarrow> None)"

text \<open>
  What can happen next in the process: the writer thread takes a step, some thread calls
  \<^verbatim>\<open>write\<close> (only while the object is alive), or the owner takes the next statement of
  the destructor. The join completes only once \<^verbatim>\<open>run\<close> has returned. After an uncaught
  exception nothing happens any more.
\<close>

datatype event =
    RunStep string
  | Write MetricSnapshot
  | DtorClearRunning
  | DtorStopQueue
  | DtorJoin

fun terminated :: "run_pc \<Rightarrow> bool" where
  "terminated (Threw msg) = True"
| "terminated pc = False"

definition step :: "event \<Rightarrow> process \<Rightarrow> process option" where
  "step ev s =
     (if terminated (mw_thread (writer s)) then None
      else case ev of
        RunStep stamp \<Rightarrow> run_step stamp s
      | Write metrics \<Rightarrow>
          (if owner s = Live then Some (s\<lparr>writer := MetricsWriter_write (writer s) metrics\<rparr>)
           else None)
      | DtorClearRunning \<Rightarrow>
          (if owner s = Live
           then Some (s\<lparr>writer := (writer s)\<lparr>mw_running := False\<rparr>, owner := RunningCleared\<rparr>)
           else None)
      | DtorStopQueue \<Rightarrow>
          (if owner s = RunningCleared
           then Some ((with_queue s (stop (mw_queue (writer s))))\<lparr>owner := QueueStopped\<rparr>)
           else None)
      | DtorJoin \<Rightarrow>
          (if owner s = QueueStopped \<and> mw_thread (writer s) = Returned
           then Some (s\<lparr>owner := Destroyed\<rparr>)
           else None))"

fun exec :: "event list \<Rightarrow> process \<Rightarrow> process option" where
  "exec [] s = Some s"
| "exec (ev # evs) s = (case step ev s of None \<Rightarrow> None | Some s' \<Rightarrow> exec evs s')"

fun written :: "event list \<Rightarrow> MetricSnapshot list" where
  "written [] = []"
| "written (Write m # evs) = m # written evs"
| "written (ev # evs) = written evs"

text \<open>
  The order of the destructor, as a property of a state: \<^verbatim>\<open>running_\<close> is cleared by the
  destructor's first statement and never set again, and the queue is stopped only by its
  second.
\<close>

definition shutdown_order :: "process \<Rightarrow> bool" where
  "shutdown_order s =
     ((owner s = Live \<or> \<not> mw_running (writer s))
      \<and> (owner s = QueueStopped \<or> owner s = Destroyed \<or> \<not> tsq_stopped (mw_queue (writer s))))"

section \<open>The collector (\<^verbatim>\<open>MetricsCollector\<close>)\<close>

text \<open>
  The collector holds \<^verbatim>\<open>std::shared_ptr<Metric>\<close> handles: the metric objects live
  outside it, are mutated by other threads through the same handles, and one object may be
  registered more than once. So the objects are in a store, and \<^verbatim>\<open>metrics_\<close> is a
  list of addresses. An address with no object stands for an empty handle;
  dereferencing it ends the call without a result.
\<close>

type_synonym store = "nat \<rightharpoonup> Metric"

record MetricsCollector =
  mc_metrics :: "nat list"
  mc_writer :: MetricsWriter

definition addMetric :: "MetricsCollector \<Rightarrow> nat \<Rightarrow> MetricsCollector" where
  "addMetric c metric = c\<lparr>mc_metrics := mc_metrics c @ [metric]\<rparr>"

text \<open>
  What a driver thread does to a metric it holds a handle of: \<^verbatim>\<open>Gauge::update\<close> or
  \<^verbatim>\<open>Counter::increment\<close>, each one critical section on the metric's own mutex. Neither
  takes the collector's mutex, so they run while \<^verbatim>\<open>collectAndWrite\<close> does.
\<close>

datatype driver_call = Update nat double | Increment nat "32 word"


fun driver :: "store \<Rightarrow> driver_call \<Rightarrow> store option" where
  "driver h (Update p v) =
     (case h p of Some (GaugeObj g) \<Rightarrow> Some (h(p \<mapsto> GaugeObj (Gauge_update g v))) | _ \<Rightarrow> None)"
| "driver h (Increment p d) =
     (case h p of Some (CounterObj c) \<Rightarrow> Some (h(p \<mapsto> CounterObj (Counter_increment c d)))
      | _ \<Rightarrow> None)"

text \<open>
  \<^verbatim>\<open>collectAndWrite\<close>, cut where it meets the other threads. For each registered metric
  the loop makes two calls, each a critical section of its own on the metric's mutex:
  \<^verbatim>\<open>getValueAsString()\<close> (with \<^verbatim>\<open>getName()\<close>, which reads the immutable name) and
  \<^verbatim>\<open>reset()\<close>. After the loop, \<^verbatim>\<open>writer_.write(snapshot)\<close> hands the snapshot over.

  \<^descr> \<open>Reading ps\<close>: before \<^verbatim>\<open>snapshot.emplace_back(...)\<close> for the first of \<open>ps\<close>, or, when
    \<open>ps\<close> is empty, before \<^verbatim>\<open>writer_.write(snapshot)\<close>;
  \<^descr> \<open>Resetting p ps\<close>: before \<^verbatim>\<open>metric->reset()\<close> for \<open>p\<close>, with \<open>ps\<close> still to come;
  \<^descr> \<open>Handed\<close>: the call has returned.
\<close>

datatype pass_pc = Reading "nat list" | Resetting nat "nat list" | Handed

record collecting =
  cw_store :: store
  cw_collector :: MetricsCollector
  cw_pc :: pass_pc
  cw_snapshot :: MetricSnapshot

definition begin_collect :: "store \<Rightarrow> MetricsCollector \<Rightarrow> collecting" where
  "begin_collect h c =
     \<lparr>cw_store = h, cw_collector = c, cw_pc = Reading (mc_metrics c), cw_snapshot = []\<rparr>"

definition collect_step :: "collecting \<Rightarrow> collecting option" where
  "collect_step st =
     (case cw_pc st of
        Reading [] \<Rightarrow>
          Some (st\<lparr>cw_collector := (cw_collector st)
                      \<lparr>mc_writer := MetricsWriter_write (mc_writer (cw_collector st)) (cw_snapshot st)\<rparr>,
                    cw_pc := Handed\<rparr>)
      | Reading (p # ps) \<Rightarrow>
          (case cw_store st p of
             None \<Rightarrow> None
           | Some metric \<Rightarrow>
               Some (st\<lparr>cw_pc := Resetting p ps,
                         cw_snapshot := cw_snapshot st @ [(getName metric, getValueAsString metric)]\<rparr>))
      | Resetting p ps \<Rightarrow>
          (case cw_store st p of
             None \<Rightarrow> None
           | Some metric \<Rightarrow>
               Some (st\<lparr>cw_store := (cw_store st)(p \<mapsto> reset metric), cw_pc := Reading ps\<rparr>))
      | Handed \<Rightarrow> None)"

text \<open>
  A schedule of one call: at each point either the collecting thread takes its next step
  or a driver thread completes a call on a metric.
\<close>

datatype collect_event = Collector | Driver driver_call

fun collect_run :: "collect_event list \<Rightarrow> collecting \<Rightarrow> collecting option" where
  "collect_run [] st = Some st"
| "collect_run (Collector # evs) st =
     (case collect_step st of None \<Rightarrow> None | Some st' \<Rightarrow> collect_run evs st')"
| "collect_run (Driver d # evs) st =
     (case driver (cw_store st) d of
        None \<Rightarrow> None
      | Some h' \<Rightarrow> collect_run evs (st\<lparr>cw_store := h'\<rparr>))"



text \<open>
  The call with no other thread running in between: two steps for each registered metric
  and one for the hand-over.
\<close>

fun undisturbed :: "nat \<Rightarrow> collect_event list" where
  "undisturbed 0 = [Collector]"
| "undisturbed (Suc n) = Collector # Collector # undisturbed n"

definition collectAndWrite :: "store \<Rightarrow> MetricsCollector \<Rightarrow> (store \<times> MetricsCollector) option" where
  "collectAndWrite h c =
     map_option (\<lambda>st. (cw_store st, cw_collector st))
       (collect_run (undisturbed (length (mc_metrics c))) (begin_collect h c))"

text \<open>
  What the undisturbed loop computes, as a function of the store, the handles still to come
  and the snapshot so far; \<open>collect_run_alone\<close> below proves that the steps compute it.
\<close>

fun pass_alone :: "store \<Rightarrow> nat list \<Rightarrow> MetricSnapshot \<Rightarrow> (store \<times> MetricSnapshot) option" where
  "pass_alone h [] snap = Some (h, snap)"
| "pass_alone h (p # ps) snap =
     (case h p of
        None \<Rightarrow> None
      | Some metric \<Rightarrow>
          pass_alone (h(p \<mapsto> reset metric)) ps (snap @ [(getName metric, getValueAsString metric)]))"




definition reads_zero :: "store \<Rightarrow> nat \<Rightarrow> bool" where
  "reads_zero h p = (case h p of None \<Rightarrow> False | Some m \<Rightarrow> getValueAsString m = zero_text m)"

text \<open>
  The objects of \<^verbatim>\<open>test_metrics_collector\<close> in \<^verbatim>\<open>tests/metrics_tests.cpp\<close>, as they
  stand just before \<^verbatim>\<open>collector.collectAndWrite()\<close>: a gauge updated to \<^verbatim>\<open>123.45\<close>
  (the \<^verbatim>\<open>double\<close> nearest to it is \<open>8687021468732621 * 2 ^ - 46\<close>) and a counter
  incremented by 7, registered in that order with \<^verbatim>\<open>addMetric\<close>. The counter at address 2
  is not of the test: it stands for a metric the collector holds no handle of.
\<close>

definition test_store :: store where
  "test_store =
     [0 \<mapsto> GaugeObj \<lparr>gauge_name = ''test_gauge_collector'',
                       gauge_value = Finite False 8687021468732621 (- 46)\<rparr>,
      1 \<mapsto> CounterObj \<lparr>counter_name = ''test_counter_collector'', counter_value = 7\<rparr>,
      2 \<mapsto> CounterObj \<lparr>counter_name = ''elsewhere'', counter_value = 3\<rparr>]"

definition test_collector :: MetricsCollector where
  "test_collector =
     addMetric
       (addMetric
          \<lparr>mc_metrics = [],
           mc_writer = \<lparr>mw_filename = ''test_metrics.txt'', mw_queue = empty_queue,
                        mw_thread = AtWaitAndPop, mw_running = True\<rparr>\<rparr>
          0)
       1"

section \<open>Evaluation and shared facts\<close>

lemmas queue_defs = empty_queue_def push_def tryPop_def waitAndPop_def wait_pred_def stop_def

lemmas render_defs = to_string_def dec_digits.simps digit_char_def hundredths_def
  round_half_even_def Let_def

lemmas process_defs = start_def MetricsWriter_new_def MetricsWriter_write_def step_def run_step_def
  at_pc_def with_queue_def

subsection \<open>Queue\<close>

lemma drain_queue: "drain q = tsq_queue q"
proof (induction "tsq_queue q" arbitrary: q)
  case Nil
  then show ?case by (simp add: tryPop_def drain.simps [of q])
next
  case (Cons x xs)
  from Cons.hyps(2) have ne: "tsq_queue q \<noteq> []" and h: "hd (tsq_queue q) = x"
    and t: "tl (tsq_queue q) = xs" by (metis list.distinct(1), metis list.sel(1), metis list.sel(3))
  have "drain (q\<lparr>tsq_queue := xs\<rparr>) = xs"
    using Cons.hyps(1) [of "q\<lparr>tsq_queue := xs\<rparr>"] by simp
  then show ?case using ne h t Cons.hyps(2) by (simp add: tryPop_def drain.simps [of q])
qed

lemma pop_changes_queue:
  "tsq_queue q \<noteq> [] \<Longrightarrow> q\<lparr>tsq_queue := tl (tsq_queue q)\<rparr> \<noteq> q"
proof
  assume ne: "tsq_queue q \<noteq> []" and eq: "q\<lparr>tsq_queue := tl (tsq_queue q)\<rparr> = q"
  from eq have "tsq_queue (q\<lparr>tsq_queue := tl (tsq_queue q)\<rparr>) = tsq_queue q" by simp
  then have "length (tl (tsq_queue q)) = length (tsq_queue q)" by simp
  with ne show False by (cases "tsq_queue q") auto
qed

lemma waitAndPop_absent:
  "(waitAndPop q d = Some (d, q)) = (tsq_queue q = [] \<and> tsq_stopped q)"
proof (cases "tsq_queue q = []")
  case True
  then show ?thesis by (simp add: waitAndPop_def wait_pred_def)
next
  case False
  from pop_changes_queue [OF False] False show ?thesis
    by (auto simp: waitAndPop_def wait_pred_def)
qed

lemma run_calls_conserves:
  "run_calls cs q out = Some (q', out') \<Longrightarrow> out' @ tsq_queue q' = out @ tsq_queue q @ pushed cs"
proof (induction cs arbitrary: q out)
  case Nil
  then show ?case by simp
next
  case (Cons c cs)
  show ?case
  proof (cases c)
    case (Push d)
    with Cons.prems have "run_calls cs (push q d) out = Some (q', out')" by simp
    from Cons.IH [OF this] Push show ?thesis by (simp add: push_def)
  next
    case TryPop
    show ?thesis
    proof (cases "tsq_queue q")
      case Nil
      with Cons.prems TryPop have "run_calls cs q out = Some (q', out')"
        by (simp add: tryPop_def)
      from Cons.IH [OF this] Nil TryPop show ?thesis by simp
    next
      case (Cons x xs)
      with Cons.prems TryPop have "run_calls cs (q\<lparr>tsq_queue := xs\<rparr>) (out @ [x]) = Some (q', out')"
        by (simp add: tryPop_def)
      from Cons.IH [OF this] Cons TryPop show ?thesis by simp
    qed
  next
    case WaitAndPop
    show ?thesis
    proof (cases "tsq_queue q")
      case Nil
      with Cons.prems WaitAndPop have "run_calls cs q out = Some (q', out')"
        by (simp add: waitAndPop_def wait_pred_def split: if_splits)
      from Cons.IH [OF this] Nil WaitAndPop show ?thesis by simp
    next
      case (Cons x xs)
      with Cons.prems WaitAndPop
      have "run_calls cs (q\<lparr>tsq_queue := xs\<rparr>) (out @ [x]) = Some (q', out')"
        by (simp add: waitAndPop_def wait_pred_def)
      from Cons.IH [OF this] Cons WaitAndPop show ?thesis by simp
    qed
  next
    case Stop
    with Cons.prems have "run_calls cs (stop q) out = Some (q', out')" by simp
    from Cons.IH [OF this] Stop show ?thesis by (simp add: stop_def)
  qed
qed

subsection \<open>Rendering\<close>

lemma fixed2_zero: "fixed2 (Finite False 0 0) = ''0.00''"
  by (simp add: render_defs)

lemma to_string_zero: "to_string 0 = ''0''"
  by (simp add: render_defs)

lemma digit_char_is_digit: "digit_char n \<in> set ''0123456789''"
  unfolding digit_char_def by (rule nth_mem) simp

lemma digit_char_not_dot: "digit_char n \<noteq> CHR ''.''"
  using digit_char_is_digit [of n] by auto

lemma dec_digits_no_dot: "CHR ''.'' \<notin> set (dec_digits n)"
proof (induction n rule: dec_digits.induct)
  case (1 n)
  show ?case
  proof (cases "n < 10")
    case True
    then show ?thesis using digit_char_not_dot [of n] by (simp add: dec_digits.simps [of n])
  next
    case False
    with 1 digit_char_not_dot [of n] show ?thesis by (simp add: dec_digits.simps [of n])
  qed
qed

lemma dropWhile_to_dot:
  "CHR ''.'' \<notin> set xs \<Longrightarrow> dropWhile (\<lambda>c. c \<noteq> CHR ''.'') (xs @ CHR ''.'' # ys) = CHR ''.'' # ys"
  by (induction xs) auto

lemma fraction_part_fixed2:
  "fraction_part (fixed2 (Finite s m e))
     = Some [digit_char (hundredths m e div 10), digit_char (hundredths m e)]"
proof -
  let ?ip = "(if s then ''-'' else []) @ dec_digits (hundredths m e div 100)"
  have nd: "CHR ''.'' \<notin> set ?ip" using dec_digits_no_dot by simp
  have "fixed2 (Finite s m e)
      = ?ip @ CHR ''.'' # [digit_char (hundredths m e div 10), digit_char (hundredths m e)]"
    by simp
  then show ?thesis
    unfolding fraction_part_def using dropWhile_to_dot [OF nd] by simp
qed

lemma sint_add_in_range:
  fixes a b :: "32 word"
  assumes "is_int32 (sint a + sint b)"
  shows "sint (a + b) = sint a + sint b"
proof -
  from assms have "- (2 ^ 31) \<le> sint a + sint b" and "sint a + sint b < 2 ^ 31"
    by (simp_all add: is_int32_def)
  then have "signed_take_bit 31 (sint a + sint b) = sint a + sint b"
    by (rule signed_take_bit_int_eq_self)
  then show ?thesis by (simp add: sint_word_add)
qed

lemma counter_value_increments:
  "stays_int32 (sint (counter_value c)) ds \<Longrightarrow>
   sint (counter_value (foldl Counter_increment c ds)) = sint (counter_value c) + sum_list (map sint ds)"
proof (induction ds arbitrary: c)
  case Nil
  then show ?case by simp
next
  case (Cons d ds)
  from Cons.prems have r: "is_int32 (sint (counter_value c) + sint d)"
    and rest: "stays_int32 (sint (counter_value c) + sint d) ds" by simp_all
  have v: "sint (counter_value (Counter_increment c d)) = sint (counter_value c) + sint d"
    using sint_add_in_range [OF r] by (simp add: Counter_increment_def)
  from rest v have "stays_int32 (sint (counter_value (Counter_increment c d))) ds" by simp
  from Cons.IH [OF this] v show ?case by simp
qed

lemma getName_reset: "getName (reset m) = getName m"
  by (cases m) (simp_all add: Gauge_getName_def Gauge_reset_def Counter_getName_def Counter_reset_def)

lemma reset_reset: "reset (reset m) = reset m"
  by (cases m) (simp_all add: Gauge_reset_def Counter_reset_def)


lemma reset_reads_zero: "getValueAsString (reset m) = zero_text m"
  by (cases m)
     (simp_all add: Gauge_getValueAsString_def Gauge_reset_def fixed2_zero
        Counter_getValueAsString_def Counter_reset_def to_string_zero del: fixed2.simps)

subsection \<open>Reading a rendering back\<close>

lemma digit_value_digit_char: "digit_value (digit_char n) = n mod 10"
proof -
  have "n mod 10 = 0 \<or> n mod 10 = 1 \<or> n mod 10 = 2 \<or> n mod 10 = 3 \<or> n mod 10 = 4
    \<or> n mod 10 = 5 \<or> n mod 10 = 6 \<or> n mod 10 = 7 \<or> n mod 10 = 8 \<or> n mod 10 = 9"
    by presburger
  then show ?thesis
    by (elim disjE) (simp_all add: digit_value_def digit_char_def)
qed

lemma is_digit_digit_char: "is_digit (digit_char n)"
  using digit_char_is_digit by (simp add: is_digit_def)

lemma digits_value_snoc: "digits_value (ds @ [c]) = 10 * digits_value ds + digit_value c"
  by (simp add: digits_value_def)

lemma digits_value_two:
  "digits_value (ds @ [a, b]) = 10 * (10 * digits_value ds + digit_value a) + digit_value b"
  by (simp add: digits_value_def)

lemma dec_digits_value: "digits_value (dec_digits n) = n"
proof (induction n rule: dec_digits.induct)
  case (1 n)
  show ?case
  proof (cases "n < 10")
    case True
    then show ?thesis
      by (simp add: dec_digits.simps [of n] digits_value_def digit_value_digit_char)
  next
    case False
    with 1 have "digits_value (dec_digits (n div 10)) = n div 10" by simp
    with False show ?thesis
      by (simp add: dec_digits.simps [of n] digits_value_snoc digit_value_digit_char)
  qed
qed

lemma dec_digits_all_digits: "list_all is_digit (dec_digits n)"
proof (induction n rule: dec_digits.induct)
  case (1 n)
  show ?case
  proof (cases "n < 10")
    case True
    then show ?thesis by (simp add: dec_digits.simps [of n] is_digit_digit_char)
  next
    case False
    with 1 show ?thesis by (simp add: dec_digits.simps [of n] is_digit_digit_char)
  qed
qed

lemma dec_digits_nonempty: "dec_digits n \<noteq> []"
  by (simp add: dec_digits.simps [of n])

lemma all_digits_no_mark:
  "list_all is_digit ds \<Longrightarrow> CHR ''.'' \<notin> set ds \<and> CHR ''-'' \<notin> set ds"
  by (induction ds) (auto simp: is_digit_def)

lemma dec_digits_not_minus: "take 1 (dec_digits q @ ys) \<noteq> ''-''"
proof -
  obtain c cs where c: "dec_digits q = c # cs"
    using dec_digits_nonempty [of q] by (cases "dec_digits q") auto
  with dec_digits_all_digits [of q] have "is_digit c" by simp
  then have "c \<noteq> CHR ''-''" by (auto simp: is_digit_def)
  with c show ?thesis by simp
qed

lemma takeWhile_to_dot:
  "CHR ''.'' \<notin> set xs \<Longrightarrow> takeWhile (\<lambda>c. c \<noteq> CHR ''.'') (xs @ CHR ''.'' # ys) = xs"
  by (induction xs) auto

lemma hundreds_tens_units: "10 * (10 * (n div 100) + n div 10 mod 10) + n mod 10 = (n::nat)"
proof -
  have "n div 100 = n div 10 div 10" by (simp add: div_mult2_eq)
  then have "10 * (n div 100) + n div 10 mod 10 = n div 10" by simp
  then show ?thesis by simp
qed

lemma hundredths_digits:
  "digits_value (dec_digits (n div 100) @ [digit_char (n div 10), digit_char n]) = n"
  unfolding digits_value_two dec_digits_value digit_value_digit_char
  by (rule hundreds_tens_units)

lemma parse_fixed2_fixed2:
  "parse_fixed2 (fixed2 (Finite s m e)) = Some (s, hundredths m e)"
proof -
  let ?n = "hundredths m e"
  let ?ip = "dec_digits (?n div 100)"
  let ?fp = "[digit_char (?n div 10), digit_char ?n]"
  let ?body = "?ip @ CHR ''.'' # ?fp"
  have nd: "CHR ''.'' \<notin> set ?ip"
    using all_digits_no_mark [OF dec_digits_all_digits] by blast
  have tw: "takeWhile (\<lambda>c. c \<noteq> CHR ''.'') ?body = ?ip" by (rule takeWhile_to_dot [OF nd])
  have dw: "dropWhile (\<lambda>c. c \<noteq> CHR ''.'') ?body = CHR ''.'' # ?fp" by (rule dropWhile_to_dot [OF nd])
  have digs: "list_all is_digit (?ip @ ?fp)"
    using dec_digits_all_digits [of "?n div 100"] by (simp add: is_digit_digit_char)
  have val: "digits_value (?ip @ ?fp) = ?n" by (rule hundredths_digits)
  have body: "parse_fixed2 ?body = Some (False, ?n)"
    unfolding parse_fixed2_def Let_def
    using dec_digits_not_minus [of "?n div 100" "CHR ''.'' # ?fp"] tw dw digs val
      dec_digits_nonempty [of "?n div 100"]
    by simp
  have neg: "parse_fixed2 (CHR ''-'' # ?body) = Some (True, ?n)"
    unfolding parse_fixed2_def Let_def
    using tw dw digs val dec_digits_nonempty [of "?n div 100"]
    by simp
  show ?thesis
  proof (cases s)
    case True
    with neg show ?thesis by simp
  next
    case False
    with body show ?thesis by simp
  qed
qed

lemma fixed2_two_fraction_digits:
  "\<exists>d1 d2. fraction_part (fixed2 (Finite s m e)) = Some [d1, d2] \<and> is_digit d1 \<and> is_digit d2"
  using fraction_part_fixed2 [of s m e] is_digit_digit_char by blast

lemma hundredths_nearest: "nearest_hundredth m e (hundredths m e)"
proof (cases "0 \<le> e")
  case True
  then show ?thesis by (simp add: nearest_hundredth_def hundredths_def)
next
  case False
  define b :: nat where "b = 2 ^ nat (- e)"
  define a :: nat where "a = m * 100"
  define q where "q = a div b"
  define r where "r = a mod b"
  have bpos: "0 < b" by (simp add: b_def)
  have a: "a = q * b + r" by (simp add: q_def r_def)
  have rb: "r < b" using bpos by (simp add: r_def)
  have n: "hundredths m e = (if 2 * r < b then q else if b < 2 * r then q + 1
      else if even q then q else q + 1)"
    using False by (simp add: hundredths_def round_half_even_def Let_def a_def b_def q_def r_def)
  have d0: "\<bar>int a - int (q * b)\<bar> = int r" using a by simp
  have d1: "\<bar>int a - int ((q + 1) * b)\<bar> = int b - int r"
    using a rb by (simp add: algebra_simps)
  have goal: "2 * \<bar>int a - int (hundredths m e * b)\<bar> \<le> int b
      \<and> (if 2 * \<bar>int a - int (hundredths m e * b)\<bar> = int b then even (hundredths m e) else True)"
  proof (cases "2 * r < b")
    case True
    with n d0 show ?thesis by simp
  next
    case nl: False
    show ?thesis
    proof (cases "b < 2 * r")
      case True
      with nl n d1 rb show ?thesis by simp
    next
      case False
      with nl have eq: "2 * r = b" by simp
      show ?thesis
      proof (cases "even q")
        case True
        with n nl False d0 eq show ?thesis by simp
      next
        case False
        with n nl \<open>\<not> b < 2 * r\<close> d1 eq show ?thesis by simp
      qed
    qed
  qed
  with False show ?thesis
    by (simp add: nearest_hundredth_def a_def b_def)
qed

lemma nearest_hundredth_unique:
  assumes "nearest_hundredth m e n" and "nearest_hundredth m e n'"
  shows "n' = n"
proof (cases "0 \<le> e")
  case True
  with assms show ?thesis by (simp add: nearest_hundredth_def)
next
  case False
  define b :: int where "b = 2 ^ nat (- e)"
  define a :: int where "a = int (m * 100)"
  have bpos: "0 < b" by (simp add: b_def)
  have near: "2 * \<bar>a - int k * b\<bar> \<le> b" and tie: "2 * \<bar>a - int k * b\<bar> = b \<Longrightarrow> even k"
    if "nearest_hundredth m e k" for k
    using that False by (simp_all add: nearest_hundredth_def a_def b_def split: if_splits)
  have apart: False if lt: "k < l" and k: "nearest_hundredth m e k" and l: "nearest_hundredth m e l"
    for k l
  proof -
    from lt have "int k + 1 \<le> int l" by simp
    then have "(int k + 1) * b \<le> int l * b" using bpos by (simp only: mult_right_mono less_imp_le)
    then have gap: "int k * b + b \<le> int l * b" by (simp add: algebra_simps)
    have squeeze: "2 * \<bar>a - x\<bar> = b \<and> 2 * \<bar>a - y\<bar> = b \<and> y = x + b"
      if "2 * \<bar>a - x\<bar> \<le> b" and "2 * \<bar>a - y\<bar> \<le> b" and "x + b \<le> y" for x y :: int
      using that by (auto simp: abs_if split: if_splits)
    from squeeze [OF near [OF k] near [OF l] gap]
    have ek: "2 * \<bar>a - int k * b\<bar> = b" and el: "2 * \<bar>a - int l * b\<bar> = b"
      and one: "int l * b = int k * b + b" by blast+
    from one have "int l * b = (int k + 1) * b" by (simp add: algebra_simps)
    with bpos have "int l = int k + 1" by simp
    then have "l = Suc k" by simp
    with tie [OF k ek] tie [OF l el] show False by simp
  qed
  show ?thesis
  proof (rule ccontr)
    assume "n' \<noteq> n"
    then consider "n < n'" | "n' < n" by linarith
    then show False using apart assms by cases blast+
  qed
qed

lemma pass_alone_Some:
  "set ps \<subseteq> dom h \<Longrightarrow> \<exists>h' out. pass_alone h ps snap = Some (h', out)"
proof (induction ps arbitrary: h snap)
  case Nil
  then show ?case by simp
next
  case (Cons p ps)
  from Cons.prems obtain m where m: "h p = Some m" by auto
  from Cons.prems have "set ps \<subseteq> dom (h(p \<mapsto> reset m))" by auto
  from Cons.IH [OF this, of "snap @ [(getName m, getValueAsString m)]"]
  obtain h' out where
    "pass_alone (h(p \<mapsto> reset m)) ps (snap @ [(getName m, getValueAsString m)]) = Some (h', out)"
    by blast
  with m have "pass_alone h (p # ps) snap = Some (h', out)" by simp
  then show ?case by blast
qed











lemma collect_run_alone:
  "collect_run (undisturbed (length ps))
       \<lparr>cw_store = h, cw_collector = c, cw_pc = Reading ps, cw_snapshot = snap\<rparr>
     = (case pass_alone h ps snap of
          None \<Rightarrow> None
        | Some (h', out) \<Rightarrow>
            Some \<lparr>cw_store = h',
                  cw_collector = c\<lparr>mc_writer := MetricsWriter_write (mc_writer c) out\<rparr>,
                  cw_pc = Handed, cw_snapshot = out\<rparr>)"
proof (induction ps arbitrary: h snap)
  case Nil
  then show ?case by (simp add: collect_step_def)
next
  case (Cons p ps)
  show ?case
  proof (cases "h p")
    case None
    then show ?thesis by (simp add: collect_step_def)
  next
    case (Some m)
    have "collect_run (undisturbed (length (p # ps)))
        \<lparr>cw_store = h, cw_collector = c, cw_pc = Reading (p # ps), cw_snapshot = snap\<rparr>
      = collect_run (undisturbed (length ps))
        \<lparr>cw_store = h(p \<mapsto> reset m), cw_collector = c, cw_pc = Reading ps,
          cw_snapshot = snap @ [(getName m, getValueAsString m)]\<rparr>"
      using Some by (simp add: collect_step_def)
    also have "\<dots> = (case pass_alone (h(p \<mapsto> reset m)) ps (snap @ [(getName m, getValueAsString m)]) of
          None \<Rightarrow> None
        | Some (h', out) \<Rightarrow>
            Some \<lparr>cw_store = h',
                  cw_collector = c\<lparr>mc_writer := MetricsWriter_write (mc_writer c) out\<rparr>,
                  cw_pc = Handed, cw_snapshot = out\<rparr>)"
      by (rule Cons.IH)
    also have "\<dots> = (case pass_alone h (p # ps) snap of
          None \<Rightarrow> None
        | Some (h', out) \<Rightarrow>
            Some \<lparr>cw_store = h',
                  cw_collector = c\<lparr>mc_writer := MetricsWriter_write (mc_writer c) out\<rparr>,
                  cw_pc = Handed, cw_snapshot = out\<rparr>)"
      using Some by simp
    finally show ?thesis .
  qed
qed

lemma collectAndWrite_alone:
  "collectAndWrite h c =
     (case pass_alone h (mc_metrics c) [] of
        None \<Rightarrow> None
      | Some (h', out) \<Rightarrow> Some (h', c\<lparr>mc_writer := MetricsWriter_write (mc_writer c) out\<rparr>))"
  unfolding collectAndWrite_def begin_collect_def collect_run_alone
  by (simp split: option.splits)








lemma start_shutdown_order: "start file filename = Inr s \<Longrightarrow> shutdown_order s"
  by (auto simp: start_def MetricsWriter_new_def shutdown_order_def empty_queue_def)

lemma run_step_shutdown_order:
  "run_step stamp s = Some s' \<Longrightarrow> shutdown_order s \<Longrightarrow> shutdown_order s'"
  by (cases "mw_thread (writer s)")
     (auto simp: run_step_def at_pc_def with_queue_def tryPop_def waitAndPop_def shutdown_order_def
           split: if_splits option.splits prod.splits)

lemma step_shutdown_order:
  "step ev s = Some s' \<Longrightarrow> shutdown_order s \<Longrightarrow> shutdown_order s'"
proof (cases ev)
  case (RunStep stamp)
  assume "step ev s = Some s'" and "shutdown_order s"
  with RunStep run_step_shutdown_order show ?thesis
    by (auto simp: step_def split: if_splits)
next
  case (Write m)
  assume "step ev s = Some s'" and "shutdown_order s"
  with Write show ?thesis
    by (auto simp: step_def shutdown_order_def MetricsWriter_write_def push_def split: if_splits)
next
  case DtorClearRunning
  assume "step ev s = Some s'" and "shutdown_order s"
  with DtorClearRunning show ?thesis
    by (auto simp: step_def shutdown_order_def split: if_splits)
next
  case DtorStopQueue
  assume "step ev s = Some s'" and "shutdown_order s"
  with DtorStopQueue show ?thesis
    by (auto simp: step_def shutdown_order_def with_queue_def stop_def split: if_splits)
next
  case DtorJoin
  assume "step ev s = Some s'" and "shutdown_order s"
  with DtorJoin show ?thesis
    by (auto simp: step_def shutdown_order_def split: if_splits)
qed

lemma exec_shutdown_order:
  "exec evs s = Some s' \<Longrightarrow> shutdown_order s \<Longrightarrow> shutdown_order s'"
proof (induction evs arbitrary: s)
  case Nil
  then show ?case by simp
next
  case (Cons ev evs)
  from Cons.prems(1) obtain s1 where s1: "step ev s = Some s1" and rest: "exec evs s1 = Some s'"
    by (cases "step ev s") auto
  from step_shutdown_order [OF s1 Cons.prems(2)] Cons.IH [OF rest] show ?case by blast
qed

lemma absent_then_returns:
  assumes "mw_thread (writer s) = AtWaitAndPop"
    and "tsq_queue (mw_queue (writer s)) = []" and "tsq_stopped (mw_queue (writer s))"
    and "\<not> mw_running (writer s)"
  shows "exec [RunStep t1, RunStep t2, RunStep t3, RunStep t4] s = Some (at_pc s Returned)"
  using assms by (simp add: queue_defs process_defs)

section \<open>The queue's contract\<close>

text \<open>
  C10. \<^verbatim>\<open>stop()\<close> sets the stopped flag and touches nothing else: the pending snapshots
  are the same sequence as before, a consumer that pops after the stop still gets every one
  of them in order (\<^verbatim>\<open>tryPop\<close> answers as it would have, and \<^verbatim>\<open>waitAndPop\<close> hands
  out the head without sleeping), and a second \<^verbatim>\<open>stop()\<close> gives the state the first one
  gave.
\<close>

theorem C10_stop_frame_idempotent:
  "tsq_queue (stop q) = tsq_queue q
   \<and> tsq_stopped (stop q)
   \<and> stop q = q\<lparr>tsq_stopped := True\<rparr>
   \<and> drain (stop q) = tsq_queue q
   \<and> tryPop (stop q) d = (case tryPop q d of (b, d', q') \<Rightarrow> (b, d', stop q'))
   \<and> waitAndPop (stop q) d =
       (if tsq_queue q = [] then Some (d, stop q)
        else Some (hd (tsq_queue q), stop (q\<lparr>tsq_queue := tl (tsq_queue q)\<rparr>)))
   \<and> stop (stop q) = stop q"
  unfolding drain_queue by (simp add: queue_defs)

text \<open>C10 on a queue that holds two snapshots when it is stopped.\<close>

theorem C10_stop_frame_idempotent_witness:
  "drain (stop \<lparr>tsq_queue = [[(''a'', ''1'')], [(''b'', ''2'')]], tsq_stopped = False\<rparr>)
     = [[(''a'', ''1'')], [(''b'', ''2'')]]
   \<and> stop (stop \<lparr>tsq_queue = [[(''a'', ''1'')], [(''b'', ''2'')]], tsq_stopped = False\<rparr>)
     = \<lparr>tsq_queue = [[(''a'', ''1'')], [(''b'', ''2'')]], tsq_stopped = True\<rparr>
   \<and> waitAndPop (stop \<lparr>tsq_queue = [[(''a'', ''1'')], [(''b'', ''2'')]], tsq_stopped = False\<rparr>) []
     = Some ([(''a'', ''1'')], \<lparr>tsq_queue = [[(''b'', ''2'')]], tsq_stopped = True\<rparr>)"
  using C10_stop_frame_idempotent
    [of "\<lparr>tsq_queue = [[(''a'', ''1'')], [(''b'', ''2'')]], tsq_stopped = False\<rparr>" "[]"]
  by (simp add: stop_def)

text \<open>
  C4. \<^verbatim>\<open>waitAndPop\<close> comes back without a snapshot (the caller's vector and the queue
  both untouched) exactly when the queue is stopped and empty. On a queue that is empty and
  not stopped it does not come back; on a non-empty queue, stopped or not, it removes the
  head and hands it over. Coming back empty-handed is the shutdown signal and not an error:
  in the one caller, \<^verbatim>\<open>MetricsWriter::run\<close>, whenever that happens in a run of the
  process, the thread goes on to the loop test, finds \<^verbatim>\<open>running_\<close> false and returns
  from \<^verbatim>\<open>run\<close>; nothing is thrown.
\<close>

theorem C4_waitAndPop_absent_iff:
  "(waitAndPop q d = Some (d, q)) = (tsq_queue q = [] \<and> tsq_stopped q)
   \<and> (waitAndPop q d = None) = (tsq_queue q = [] \<and> \<not> tsq_stopped q)
   \<and> waitAndPop (q\<lparr>tsq_queue := x # xs\<rparr>) d = Some (x, q\<lparr>tsq_queue := xs\<rparr>)
   \<and> (start file filename = Inr s0 \<and> exec evs s0 = Some s
        \<and> mw_thread (writer s) = AtWaitAndPop
        \<and> waitAndPop (mw_queue (writer s)) [] = Some ([], mw_queue (writer s))
      \<longrightarrow> exec [RunStep t1, RunStep t2, RunStep t3, RunStep t4] s = Some (at_pc s Returned))"
proof -
  have a: "(waitAndPop q d = Some (d, q)) = (tsq_queue q = [] \<and> tsq_stopped q)"
    by (rule waitAndPop_absent)
  have b: "(waitAndPop q d = None) = (tsq_queue q = [] \<and> \<not> tsq_stopped q)"
    by (auto simp: waitAndPop_def wait_pred_def)
  have c: "waitAndPop (q\<lparr>tsq_queue := x # xs\<rparr>) d = Some (x, q\<lparr>tsq_queue := xs\<rparr>)"
    by (simp add: waitAndPop_def wait_pred_def)
  have e: "exec [RunStep t1, RunStep t2, RunStep t3, RunStep t4] s = Some (at_pc s Returned)"
    if s0: "start file filename = Inr s0" and run: "exec evs s0 = Some s"
      and pc: "mw_thread (writer s) = AtWaitAndPop"
      and absent: "waitAndPop (mw_queue (writer s)) [] = Some ([], mw_queue (writer s))"
  proof -
    have so: "shutdown_order s"
      using exec_shutdown_order [OF run start_shutdown_order [OF s0]] .
    from absent have q: "tsq_queue (mw_queue (writer s)) = []" "tsq_stopped (mw_queue (writer s))"
      by (simp_all add: waitAndPop_absent)
    with so have "\<not> mw_running (writer s)" by (auto simp: shutdown_order_def)
    with q pc absent_then_returns show ?thesis by blast
  qed
  from a b c e show ?thesis by blast
qed

text \<open>
  C4 on a run: the thread opens the file and reaches \<^verbatim>\<open>waitAndPop\<close>, the owner runs the
  first two statements of the destructor, and the call comes back empty-handed.
\<close>

theorem C4_waitAndPop_absent_iff_witness:
  "start (Some []) ''metrics.txt''
     = Inr \<lparr>writer = \<lparr>mw_filename = ''metrics.txt'', mw_queue = empty_queue, mw_thread = AtOpen,
                       mw_running = True\<rparr>,
            sink = Some [], owner = Live\<rparr>
   \<and> exec [RunStep ''t0'', RunStep ''t0'', DtorClearRunning, DtorStopQueue]
        \<lparr>writer = \<lparr>mw_filename = ''metrics.txt'', mw_queue = empty_queue, mw_thread = AtOpen,
                     mw_running = True\<rparr>,
          sink = Some [], owner = Live\<rparr>
     = Some \<lparr>writer = \<lparr>mw_filename = ''metrics.txt'',
                         mw_queue = \<lparr>tsq_queue = [], tsq_stopped = True\<rparr>,
                         mw_thread = AtWaitAndPop, mw_running = False\<rparr>,
              sink = Some [], owner = QueueStopped\<rparr>
   \<and> waitAndPop \<lparr>tsq_queue = [], tsq_stopped = True\<rparr> []
     = Some ([], \<lparr>tsq_queue = [], tsq_stopped = True\<rparr>)
   \<and> exec [RunStep ''t1'', RunStep ''t1'', RunStep ''t1'', RunStep ''t1'']
        \<lparr>writer = \<lparr>mw_filename = ''metrics.txt'',
                     mw_queue = \<lparr>tsq_queue = [], tsq_stopped = True\<rparr>,
                     mw_thread = AtWaitAndPop, mw_running = False\<rparr>,
          sink = Some [], owner = QueueStopped\<rparr>
     = Some \<lparr>writer = \<lparr>mw_filename = ''metrics.txt'',
                         mw_queue = \<lparr>tsq_queue = [], tsq_stopped = True\<rparr>,
                         mw_thread = Returned, mw_running = False\<rparr>,
              sink = Some [], owner = QueueStopped\<rparr>"
proof -
  let ?init = "\<lparr>writer = \<lparr>mw_filename = ''metrics.txt'', mw_queue = empty_queue, mw_thread = AtOpen,
                     mw_running = True\<rparr>,
          sink = Some [], owner = Live\<rparr>"
  let ?q = "\<lparr>tsq_queue = [], tsq_stopped = True\<rparr>"
  let ?parked = "\<lparr>writer = \<lparr>mw_filename = ''metrics.txt'', mw_queue = ?q,
                     mw_thread = AtWaitAndPop, mw_running = False\<rparr>,
          sink = Some [], owner = QueueStopped\<rparr>"
  have h1: "start (Some []) ''metrics.txt'' = Inr ?init"
    by (simp add: start_def MetricsWriter_new_def)
  have h2: "exec [RunStep ''t0'', RunStep ''t0'', DtorClearRunning, DtorStopQueue] ?init = Some ?parked"
    by (simp add: queue_defs process_defs)
  have h3: "mw_thread (writer ?parked) = AtWaitAndPop" by simp
  have h4: "waitAndPop ?q [] = Some ([], ?q)"
    by (simp add: waitAndPop_def wait_pred_def)
  then have h4': "waitAndPop (mw_queue (writer ?parked)) [] = Some ([], mw_queue (writer ?parked))" by simp
  from C4_waitAndPop_absent_iff [of ?q "[]" _ _ "Some []" "''metrics.txt''" ?init
      "[RunStep ''t0'', RunStep ''t0'', DtorClearRunning, DtorStopQueue]" ?parked
      "''t1''" "''t1''" "''t1''" "''t1''"] h1 h2 h3 h4'
  have "exec [RunStep ''t1'', RunStep ''t1'', RunStep ''t1'', RunStep ''t1''] ?parked
      = Some (at_pc ?parked Returned)" by blast
  then have h5: "exec [RunStep ''t1'', RunStep ''t1'', RunStep ''t1'', RunStep ''t1''] ?parked
      = Some \<lparr>writer = \<lparr>mw_filename = ''metrics.txt'', mw_queue = ?q,
                         mw_thread = Returned, mw_running = False\<rparr>,
              sink = Some [], owner = QueueStopped\<rparr>"
    by (simp add: at_pc_def)
  from h1 h2 h4 h5 show ?thesis by blast
qed

text \<open>
  C5. The queue is an exact FIFO. Take any history of \<^verbatim>\<open>push\<close>, \<^verbatim>\<open>tryPop\<close>,
  \<^verbatim>\<open>waitAndPop\<close> and \<^verbatim>\<open>stop\<close> calls on a queue that starts empty: the snapshots the
  successful pops returned, followed by the snapshots still pending, are the pushed
  snapshots, in push order. So the pops return a prefix of what was pushed: nothing is
  lost, nothing is handed out twice, and nothing overtakes.
\<close>

theorem C5_fifo_exact:
  assumes "run_calls cs empty_queue [] = Some (q', popped)"
  shows "popped @ tsq_queue q' = pushed cs \<and> popped = take (length popped) (pushed cs)"
proof -
  from run_calls_conserves [OF assms] have c: "popped @ tsq_queue q' = pushed cs"
    by (simp add: empty_queue_def)
  have "take (length popped) (popped @ tsq_queue q') = popped" by simp
  with c show ?thesis by simp
qed

text \<open>C5 on a history that mixes both kinds of pop, a failed pop and a stop.\<close>

theorem C5_fifo_exact_witness:
  "run_calls [TryPop, Push [(''a'', ''1'')], Push [(''b'', ''2'')], TryPop, Stop,
              Push [(''c'', ''3'')], WaitAndPop, TryPop, WaitAndPop, TryPop] empty_queue []
     = Some (\<lparr>tsq_queue = [], tsq_stopped = True\<rparr>,
             [[(''a'', ''1'')], [(''b'', ''2'')], [(''c'', ''3'')]])
   \<and> [[(''a'', ''1'')], [(''b'', ''2'')], [(''c'', ''3'')]] @ tsq_queue \<lparr>tsq_queue = [], tsq_stopped = True\<rparr>
     = pushed [TryPop, Push [(''a'', ''1'')], Push [(''b'', ''2'')], TryPop, Stop,
               Push [(''c'', ''3'')], WaitAndPop, TryPop, WaitAndPop, TryPop]"
proof -
  have r: "run_calls [TryPop, Push [(''a'', ''1'')], Push [(''b'', ''2'')], TryPop, Stop,
              Push [(''c'', ''3'')], WaitAndPop, TryPop, WaitAndPop, TryPop] empty_queue []
     = Some (\<lparr>tsq_queue = [], tsq_stopped = True\<rparr>,
             [[(''a'', ''1'')], [(''b'', ''2'')], [(''c'', ''3'')]])"
    by (simp add: queue_defs)
  from r C5_fifo_exact [OF r] show ?thesis by blast
qed

section \<open>The metrics' contract\<close>

text \<open>
  C8, as the claim has it, fails: \<^verbatim>\<open>update\<close> takes any \<^verbatim>\<open>double\<close>, and an infinity or a
  NaN is not rendered in fixed point. After \<^verbatim>\<open>update(INFINITY)\<close> the gauge reads
  \<^verbatim>\<open>"inf"\<close>, and after an update to a NaN with the sign bit set \<^verbatim>\<open>"-nan"\<close>: neither text
  has a decimal point, let alone two fractional digits.
\<close>

theorem C8_gauge_nonfinite_counterexample:
  "Gauge_getValueAsString (foldl Gauge_update (Gauge_new ''g'') [Infinity False]) = ''inf''
   \<and> fraction_part ''inf'' = None
   \<and> parse_fixed2 ''inf'' = None
   \<and> Gauge_getValueAsString (foldl Gauge_update (Gauge_new ''g'') [Finite False 3 (- 3), NaN True])
      = ''-nan''
   \<and> fraction_part ''-nan'' = None
   \<and> parse_fixed2 ''-nan'' = None"
  by (simp add: Gauge_getValueAsString_def Gauge_update_def Gauge_new_def fraction_part_def
        parse_fixed2_def Let_def is_digit_def)

text \<open>
  C8, amended. After any sequence of \<^verbatim>\<open>update\<close> calls on a gauge,
  \<^verbatim>\<open>getValueAsString()\<close> is the rendering of the value of the last call alone, whatever
  the gauge held before. When that value is finite, the text has the form sign, digits,
  point, exactly two digits, and read back as a number of hundredths it is the value
  rounded to the nearest hundredth, ties to even, with the value's sign; no other number of
  hundredths is that near. When the value is an infinity or a NaN, the text is
  \<^verbatim>\<open>inf\<close> or \<^verbatim>\<open>nan\<close>, with a minus when the sign bit is set. After \<^verbatim>\<open>reset()\<close>, and on
  a new gauge, the text is \<^verbatim>\<open>"0.00"\<close>.
\<close>

theorem C8_gauge_renders_last_update:
  "Gauge_getValueAsString (foldl Gauge_update g (vs @ [v]))
     = Gauge_getValueAsString (Gauge_update (Gauge_new name) v)
   \<and> (\<exists>n. parse_fixed2 (Gauge_getValueAsString (foldl Gauge_update g (vs @ [Finite s m e])))
            = Some (s, n)
          \<and> nearest_hundredth m e n
          \<and> (\<forall>n'. nearest_hundredth m e n' \<longrightarrow> n' = n))
   \<and> (\<exists>d1 d2. fraction_part (Gauge_getValueAsString (foldl Gauge_update g (vs @ [Finite s m e])))
            = Some [d1, d2] \<and> is_digit d1 \<and> is_digit d2)
   \<and> Gauge_getValueAsString (foldl Gauge_update g (vs @ [Infinity s]))
     = (if s then ''-inf'' else ''inf'')
   \<and> Gauge_getValueAsString (foldl Gauge_update g (vs @ [NaN s]))
     = (if s then ''-nan'' else ''nan'')
   \<and> Gauge_getValueAsString (Gauge_reset g') = ''0.00''
   \<and> Gauge_getValueAsString (Gauge_new name) = ''0.00''"
proof -
  have v: "Gauge_getValueAsString (foldl Gauge_update g (vs @ [w])) = fixed2 w" for w
    by (simp add: Gauge_getValueAsString_def Gauge_update_def)
  have a: "Gauge_getValueAsString (foldl Gauge_update g (vs @ [v]))
      = Gauge_getValueAsString (Gauge_update (Gauge_new name) v)"
    by (simp add: Gauge_getValueAsString_def Gauge_update_def)
  have b: "\<exists>n. parse_fixed2 (Gauge_getValueAsString (foldl Gauge_update g (vs @ [Finite s m e])))
            = Some (s, n)
          \<and> nearest_hundredth m e n \<and> (\<forall>n'. nearest_hundredth m e n' \<longrightarrow> n' = n)"
    unfolding v using parse_fixed2_fixed2 hundredths_nearest nearest_hundredth_unique by blast
  have c: "\<exists>d1 d2. fraction_part (Gauge_getValueAsString (foldl Gauge_update g (vs @ [Finite s m e])))
            = Some [d1, d2] \<and> is_digit d1 \<and> is_digit d2"
    unfolding v by (rule fixed2_two_fraction_digits)
  have d: "Gauge_getValueAsString (foldl Gauge_update g (vs @ [Infinity s]))
      = (if s then ''-inf'' else ''inf'')"
    unfolding v by simp
  have e: "Gauge_getValueAsString (foldl Gauge_update g (vs @ [NaN s]))
      = (if s then ''-nan'' else ''nan'')"
    unfolding v by simp
  have f: "Gauge_getValueAsString (Gauge_reset g') = ''0.00''"
    using fixed2_zero by (simp add: Gauge_getValueAsString_def Gauge_reset_def del: fixed2.simps)
  have g: "Gauge_getValueAsString (Gauge_new name) = ''0.00''"
    using fixed2_zero by (simp add: Gauge_getValueAsString_def Gauge_new_def del: fixed2.simps)
  from a b c d e f g show ?thesis by blast
qed

text \<open>
  C8 amended, on \<^verbatim>\<open>test_gauge\<close> of the repository's tests with one more update in front
  (\<^verbatim>\<open>g.update(123.45); g.update(42.57)\<close> reads \<^verbatim>\<open>"42.57"\<close>; the \<^verbatim>\<open>double\<close> nearest to
  42.57 is \<open>5991194879286313 * 2 ^ - 47\<close>), and on a tie: \<^verbatim>\<open>update(0.375)\<close> reads
  \<^verbatim>\<open>"0.38"\<close>, 38 hundredths being the nearest even choice and 37 not.
\<close>

theorem C8_gauge_renders_last_update_witness:
  "Gauge_getValueAsString
     (foldl Gauge_update (Gauge_new ''test_gauge'')
        ([Finite False 8687021468732621 (- 46)] @ [Finite False 5991194879286313 (- 47)]))
     = ''42.57''
   \<and> parse_fixed2 ''42.57'' = Some (False, 4257)
   \<and> nearest_hundredth 5991194879286313 (- 47) 4257
   \<and> Gauge_getValueAsString
       (foldl Gauge_update (Gauge_new ''test_gauge'') ([] @ [Finite False 3 (- 3)]))
     = ''0.38''
   \<and> parse_fixed2 ''0.38'' = Some (False, 38)
   \<and> nearest_hundredth 3 (- 3) 38
   \<and> \<not> nearest_hundredth 3 (- 3) 37"
proof -
  let ?g = "Gauge_new ''test_gauge''"
  have t1: "Gauge_getValueAsString
      (foldl Gauge_update ?g
        ([Finite False 8687021468732621 (- 46)] @ [Finite False 5991194879286313 (- 47)]))
      = ''42.57''"
    by (simp add: Gauge_getValueAsString_def Gauge_update_def render_defs)
  have t2: "Gauge_getValueAsString (foldl Gauge_update ?g ([] @ [Finite False 3 (- 3)])) = ''0.38''"
    by (simp add: Gauge_getValueAsString_def Gauge_update_def render_defs)
  have p1: "parse_fixed2 ''42.57'' = Some (False, 4257)"
    by (simp add: parse_fixed2_def Let_def is_digit_def digits_value_def digit_value_def)
  have p2: "parse_fixed2 ''0.38'' = Some (False, 38)"
    by (simp add: parse_fixed2_def Let_def is_digit_def digits_value_def digit_value_def)
  have "\<exists>n. parse_fixed2 (Gauge_getValueAsString
      (foldl Gauge_update ?g
        ([Finite False 8687021468732621 (- 46)] @ [Finite False 5991194879286313 (- 47)])))
      = Some (False, n) \<and> nearest_hundredth 5991194879286313 (- 47) n
      \<and> (\<forall>n'. nearest_hundredth 5991194879286313 (- 47) n' \<longrightarrow> n' = n)"
    by (rule C8_gauge_renders_last_update [of ?g "[Finite False 8687021468732621 (- 46)]" _ _
      False 5991194879286313 "- 47", THEN conjunct2, THEN conjunct1])
  then obtain n1 where r1: "parse_fixed2 (Gauge_getValueAsString
      (foldl Gauge_update ?g
        ([Finite False 8687021468732621 (- 46)] @ [Finite False 5991194879286313 (- 47)])))
      = Some (False, n1)" and near1: "nearest_hundredth 5991194879286313 (- 47) n1"
    by (elim exE conjE)
  from r1 have "parse_fixed2 ''42.57'' = Some (False, n1)" unfolding t1 .
  with p1 have "n1 = 4257" by simp
  with near1 have n1: "nearest_hundredth 5991194879286313 (- 47) 4257" by simp
  have "\<exists>n. parse_fixed2 (Gauge_getValueAsString
      (foldl Gauge_update ?g ([] @ [Finite False 3 (- 3)]))) = Some (False, n)
      \<and> nearest_hundredth 3 (- 3) n \<and> (\<forall>n'. nearest_hundredth 3 (- 3) n' \<longrightarrow> n' = n)"
    by (rule C8_gauge_renders_last_update [of ?g "[]" _ _ False 3 "- 3",
      THEN conjunct2, THEN conjunct1])
  then obtain n2 where r2: "parse_fixed2 (Gauge_getValueAsString
      (foldl Gauge_update ?g ([] @ [Finite False 3 (- 3)]))) = Some (False, n2)"
    and near2: "nearest_hundredth 3 (- 3) n2"
    and only2: "\<forall>n'. nearest_hundredth 3 (- 3) n' \<longrightarrow> n' = n2"
    by (elim exE conjE)
  from r2 have "parse_fixed2 ''0.38'' = Some (False, n2)" unfolding t2 .
  with p2 have e2: "n2 = 38" by simp
  with near2 have n2: "nearest_hundredth 3 (- 3) 38" by simp
  have n3: "\<not> nearest_hundredth 3 (- 3) 37"
  proof
    assume "nearest_hundredth 3 (- 3) 37"
    with only2 have "(37::nat) = n2" by (elim allE impE)
    with e2 show False by simp
  qed
  show ?thesis by (intro conjI; fact)
qed

text \<open>
  C9, as the claim has it, fails: the counter is an \<^verbatim>\<open>int\<close>, and the sum of the deltas
  need not be one. After \<^verbatim>\<open>increment(2147483647); increment(1)\<close> the sum of the deltas is
  2147483648, and the counter reads \<^verbatim>\<open>"-2147483648"\<close>.
\<close>

theorem C9_counter_sum_counterexample:
  "Counter_getValueAsString (foldl Counter_increment (Counter_new ''c'') [2147483647, 1])
     = ''-2147483648''
   \<and> to_string (sum_list (map sint [2147483647, 1 :: 32 word])) = ''2147483648''
   \<and> Counter_getValueAsString (foldl Counter_increment (Counter_new ''c'') [2147483647, 1])
     \<noteq> to_string (sum_list (map sint [2147483647, 1 :: 32 word]))"
  by (simp add: Counter_getValueAsString_def Counter_increment_def Counter_new_def render_defs)

text \<open>
  C9, amended. For every sequence of increments on a counter that is new or has just been
  reset (each delta any \<^verbatim>\<open>int\<close>, negative and zero included; an omitted delta is 1), as
  long as the running total stays within the range of \<^verbatim>\<open>int\<close> after each increment,
  \<^verbatim>\<open>getValueAsString()\<close> renders the integer sum of the deltas. After \<^verbatim>\<open>reset()\<close> it is
  \<^verbatim>\<open>"0"\<close>.
\<close>

theorem C9_counter_sum_in_range:
  assumes "stays_int32 0 ds"
  shows "Counter_getValueAsString (foldl Counter_increment (Counter_new name) ds)
           = to_string (sum_list (map sint ds))
    \<and> Counter_getValueAsString (foldl Counter_increment (Counter_reset c) ds)
           = to_string (sum_list (map sint ds))
    \<and> Counter_increment_default c = Counter_increment c 1
    \<and> Counter_getValueAsString (Counter_reset c) = ''0''
    \<and> Counter_getValueAsString (Counter_new name) = ''0''"
proof -
  have a: "stays_int32 (sint (counter_value (Counter_new name))) ds"
    using assms by (simp add: Counter_new_def)
  have b: "stays_int32 (sint (counter_value (Counter_reset c))) ds"
    using assms by (simp add: Counter_reset_def)
  show ?thesis
    using counter_value_increments [OF a] counter_value_increments [OF b] to_string_zero
    by (simp add: Counter_getValueAsString_def Counter_new_def Counter_reset_def
          Counter_increment_default_def)
qed

text \<open>
  C9 amended, on \<^verbatim>\<open>test_counter\<close> of the repository's tests (\<^verbatim>\<open>c.increment(10)\<close>
  reads \<^verbatim>\<open>"10"\<close>), followed by a negative, a zero and a positive delta.
\<close>

theorem C9_counter_sum_in_range_witness:
  "stays_int32 0 [10, - 3, 0, 1]
   \<and> Counter_getValueAsString (foldl Counter_increment (Counter_new ''test_counter'') [10]) = ''10''
   \<and> Counter_getValueAsString
       (foldl Counter_increment (Counter_new ''test_counter'') [10, - 3, 0, 1]) = ''8''"
proof -
  have h: "stays_int32 0 [10, - 3, 0, 1]" by (simp add: is_int32_def)
  have h1: "stays_int32 0 [10]" by (simp add: is_int32_def)
  have s: "to_string (sum_list (map sint [10, - 3, 0, 1 :: 32 word])) = ''8''"
    by (simp add: render_defs)
  have s1: "to_string (sum_list (map sint [10 :: 32 word])) = ''10''"
    by (simp add: render_defs)
  from h C9_counter_sum_in_range [OF h, of "''test_counter''"]
    C9_counter_sum_in_range [OF h1, of "''test_counter''"] s s1
  show ?thesis by simp
qed

section \<open>The collector's contract\<close>




section \<open>The writer's contract\<close>

text \<open>
  C1. Stopping the writer does not wait for the queue to drain. Here the thread has opened
  the file and sleeps in \<^verbatim>\<open>waitAndPop\<close>; two snapshots are written; the owner runs
  \<^verbatim>\<open>running_ = false\<close> and \<^verbatim>\<open>queue_.stop()\<close>; the thread wakes, takes the first
  snapshot and appends its line, tests \<^verbatim>\<open>running_\<close> and returns; the join completes.
  The destructor has returned, the file holds one line, and the second snapshot is still
  in the queue.
\<close>

theorem C1_shutdown_leaves_pending_snapshot:
  "start (Some []) ''metrics.txt''
     = Inr \<lparr>writer = \<lparr>mw_filename = ''metrics.txt'', mw_queue = empty_queue, mw_thread = AtOpen,
                       mw_running = True\<rparr>,
            sink = Some [], owner = Live\<rparr>
   \<and> exec [RunStep ''t0'', RunStep ''t0'',
            Write [(''a'', ''1'')], Write [(''b'', ''2'')],
            DtorClearRunning, DtorStopQueue,
            RunStep ''t1'', RunStep ''t1'', RunStep ''t1'', RunStep ''t2'',
            DtorJoin]
        \<lparr>writer = \<lparr>mw_filename = ''metrics.txt'', mw_queue = empty_queue, mw_thread = AtOpen,
                     mw_running = True\<rparr>,
          sink = Some [], owner = Live\<rparr>
     = Some \<lparr>writer = \<lparr>mw_filename = ''metrics.txt'',
                         mw_queue = \<lparr>tsq_queue = [[(''b'', ''2'')]], tsq_stopped = True\<rparr>,
                         mw_thread = Returned, mw_running = False\<rparr>,
              sink = Some [format_line ''t1'' [(''a'', ''1'')]], owner = Destroyed\<rparr>
   \<and> written [RunStep ''t0'', RunStep ''t0'',
            Write [(''a'', ''1'')], Write [(''b'', ''2'')],
            DtorClearRunning, DtorStopQueue,
            RunStep ''t1'', RunStep ''t1'', RunStep ''t1'', RunStep ''t2'',
            DtorJoin]
     = [[(''a'', ''1'')], [(''b'', ''2'')]]"
  by (simp add: queue_defs process_defs)

text \<open>
  C2. The loop of \<^verbatim>\<open>run\<close> is \<^verbatim>\<open>while (running_)\<close>: it leaves on the flag, whatever the
  state of the queue, and this is the defect behind C1. In the first run the thread has
  opened the file, a snapshot is written, the owner runs \<^verbatim>\<open>running_ = false\<close>, and the
  thread reaches the loop test: it returns, with the queue not stopped and the snapshot
  still pending. In the second run nothing is written: it returns with the queue empty and
  not stopped. In the third the destructor has stopped the queue with two snapshots
  pending when the thread reaches the loop test: it returns with both still pending and
  nothing written.
\<close>

theorem C2_loop_leaves_on_running_flag:
  "start (Some []) ''metrics.txt''
     = Inr \<lparr>writer = \<lparr>mw_filename = ''metrics.txt'', mw_queue = empty_queue, mw_thread = AtOpen,
                       mw_running = True\<rparr>,
            sink = Some [], owner = Live\<rparr>
   \<and> exec [RunStep ''t0'', Write [(''a'', ''1'')], DtorClearRunning, RunStep ''t1'']
        \<lparr>writer = \<lparr>mw_filename = ''metrics.txt'', mw_queue = empty_queue, mw_thread = AtOpen,
                     mw_running = True\<rparr>,
          sink = Some [], owner = Live\<rparr>
     = Some \<lparr>writer = \<lparr>mw_filename = ''metrics.txt'',
                         mw_queue = \<lparr>tsq_queue = [[(''a'', ''1'')]], tsq_stopped = False\<rparr>,
                         mw_thread = Returned, mw_running = False\<rparr>,
              sink = Some [], owner = RunningCleared\<rparr>
   \<and> exec [RunStep ''t0'', DtorClearRunning, RunStep ''t1'']
        \<lparr>writer = \<lparr>mw_filename = ''metrics.txt'', mw_queue = empty_queue, mw_thread = AtOpen,
                     mw_running = True\<rparr>,
          sink = Some [], owner = Live\<rparr>
     = Some \<lparr>writer = \<lparr>mw_filename = ''metrics.txt'',
                         mw_queue = \<lparr>tsq_queue = [], tsq_stopped = False\<rparr>,
                         mw_thread = Returned, mw_running = False\<rparr>,
              sink = Some [], owner = RunningCleared\<rparr>
   \<and> exec [RunStep ''t0'', Write [(''a'', ''1'')], Write [(''b'', ''2'')],
            DtorClearRunning, DtorStopQueue, RunStep ''t1'']
        \<lparr>writer = \<lparr>mw_filename = ''metrics.txt'', mw_queue = empty_queue, mw_thread = AtOpen,
                     mw_running = True\<rparr>,
          sink = Some [], owner = Live\<rparr>
     = Some \<lparr>writer = \<lparr>mw_filename = ''metrics.txt'',
                         mw_queue = \<lparr>tsq_queue = [[(''a'', ''1'')], [(''b'', ''2'')]],
                                     tsq_stopped = True\<rparr>,
                         mw_thread = Returned, mw_running = False\<rparr>,
              sink = Some [], owner = QueueStopped\<rparr>"
  by (simp add: queue_defs process_defs)

text \<open>
  C3. In the background loop, when \<^verbatim>\<open>waitAndPop\<close> delivers an empty snapshot and another
  snapshot is pending, the \<^verbatim>\<open>tryPop\<close> that follows removes that snapshot and the
  \<^verbatim>\<open>continue\<close> drops it: after the two steps the thread is back at the loop test, the
  queue holds only what came after the dropped snapshot, and the file is as it was. An
  empty snapshot is what \<^verbatim>\<open>collectAndWrite\<close> hands to the writer when no metric is
  registered.
\<close>

theorem C3_empty_snapshot_discards_next:
  assumes "mw_thread (writer s) = AtWaitAndPop"
    and "tsq_queue (mw_queue (writer s)) = [] # nxt # rest"
  shows "exec [RunStep t1, RunStep t2] s
           = Some (at_pc (with_queue s ((mw_queue (writer s))\<lparr>tsq_queue := rest\<rparr>)) AtLoopHead)
    \<and> sink (at_pc (with_queue s ((mw_queue (writer s))\<lparr>tsq_queue := rest\<rparr>)) AtLoopHead) = sink s
    \<and> collectAndWrite h (c\<lparr>mc_metrics := []\<rparr>)
        = Some (h, c\<lparr>mc_metrics := [], mc_writer := MetricsWriter_write (mc_writer c) []\<rparr>)"
  using assms by (simp add: queue_defs process_defs collectAndWrite_alone)

text \<open>
  C3 on a run: a collector without metrics collects, then the test's collector does; the
  writer thread takes both snapshots off the queue and writes no line.
\<close>

theorem C3_empty_snapshot_discards_next_witness:
  "exec [RunStep ''t0'', RunStep ''t0'',
         Write [], Write [(''test_gauge_collector'', ''123.45''), (''test_counter_collector'', ''7'')]]
        \<lparr>writer = \<lparr>mw_filename = ''metrics.txt'', mw_queue = empty_queue, mw_thread = AtOpen,
                     mw_running = True\<rparr>,
          sink = Some [], owner = Live\<rparr>
     = Some \<lparr>writer = \<lparr>mw_filename = ''metrics.txt'',
                mw_queue = \<lparr>tsq_queue = [[], [(''test_gauge_collector'', ''123.45''),
                                               (''test_counter_collector'', ''7'')]],
                            tsq_stopped = False\<rparr>,
                mw_thread = AtWaitAndPop, mw_running = True\<rparr>,
              sink = Some [], owner = Live\<rparr>
   \<and> exec [RunStep ''t1'', RunStep ''t2'']
        \<lparr>writer = \<lparr>mw_filename = ''metrics.txt'',
                mw_queue = \<lparr>tsq_queue = [[], [(''test_gauge_collector'', ''123.45''),
                                               (''test_counter_collector'', ''7'')]],
                            tsq_stopped = False\<rparr>,
                mw_thread = AtWaitAndPop, mw_running = True\<rparr>,
              sink = Some [], owner = Live\<rparr>
     = Some \<lparr>writer = \<lparr>mw_filename = ''metrics.txt'',
                mw_queue = \<lparr>tsq_queue = [], tsq_stopped = False\<rparr>,
                mw_thread = AtLoopHead, mw_running = True\<rparr>,
              sink = Some [], owner = Live\<rparr>"
proof -
  let ?parked = "\<lparr>writer = \<lparr>mw_filename = ''metrics.txt'',
                mw_queue = \<lparr>tsq_queue = [[], [(''test_gauge_collector'', ''123.45''),
                                               (''test_counter_collector'', ''7'')]],
                            tsq_stopped = False\<rparr>,
                mw_thread = AtWaitAndPop, mw_running = True\<rparr>,
              sink = Some [], owner = Live\<rparr>"
  have r: "exec [RunStep ''t0'', RunStep ''t0'',
         Write [], Write [(''test_gauge_collector'', ''123.45''), (''test_counter_collector'', ''7'')]]
        \<lparr>writer = \<lparr>mw_filename = ''metrics.txt'', mw_queue = empty_queue, mw_thread = AtOpen,
                     mw_running = True\<rparr>,
          sink = Some [], owner = Live\<rparr> = Some ?parked"
    by (simp add: queue_defs process_defs)
  have p: "mw_thread (writer ?parked) = AtWaitAndPop" by simp
  have q: "tsq_queue (mw_queue (writer ?parked))
      = [] # [(''test_gauge_collector'', ''123.45''), (''test_counter_collector'', ''7'')] # []"
    by simp
  from C3_empty_snapshot_discards_next [OF p q, of "''t1''" "''t2''"]
  have "exec [RunStep ''t1'', RunStep ''t2''] ?parked
      = Some (at_pc (with_queue ?parked ((mw_queue (writer ?parked))\<lparr>tsq_queue := []\<rparr>)) AtLoopHead)"
    by blast
  with r show ?thesis by (simp add: at_pc_def with_queue_def)
qed

text \<open>
  C7, as the claim has it, fails: with a file that cannot be opened, the constructor
  completes and hands the caller a writer; the caller gets no error. The failure comes up
  on the writer thread, at the first step of \<^verbatim>\<open>run\<close>.
\<close>

theorem C7_constructor_counterexample:
  "start None ''/no/such/dir/metrics.txt''
     = Inr \<lparr>writer = \<lparr>mw_filename = ''/no/such/dir/metrics.txt'', mw_queue = empty_queue,
                       mw_thread = AtOpen, mw_running = True\<rparr>,
            sink = None, owner = Live\<rparr>
   \<and> step (RunStep ''t0'')
        \<lparr>writer = \<lparr>mw_filename = ''/no/such/dir/metrics.txt'', mw_queue = empty_queue,
                       mw_thread = AtOpen, mw_running = True\<rparr>,
            sink = None, owner = Live\<rparr>
     = Some \<lparr>writer = \<lparr>mw_filename = ''/no/such/dir/metrics.txt'', mw_queue = empty_queue,
                       mw_thread = Threw ''Error opening file: /no/such/dir/metrics.txt'',
                       mw_running = True\<rparr>,
            sink = None, owner = Live\<rparr>"
  by (simp add: process_defs)

text \<open>
  C7, amended. A file that cannot be opened is a fatal error of the writer thread, not of
  the construction: the constructor completes normally whether or not the file can be
  opened, and when it cannot, the writer thread, at the start of \<^verbatim>\<open>run\<close>, throws
  \<^verbatim>\<open>std::runtime_error("Error opening file: " + filename_)\<close>, which nothing catches. After
  that the process takes no further step.
\<close>

theorem C7_open_failure_on_writer_thread:
  "start file filename
     = Inr \<lparr>writer = \<lparr>mw_filename = filename, mw_queue = empty_queue, mw_thread = AtOpen,
                       mw_running = True\<rparr>,
            sink = file, owner = Live\<rparr>
   \<and> step (RunStep stamp)
        \<lparr>writer = \<lparr>mw_filename = filename, mw_queue = empty_queue, mw_thread = AtOpen,
                       mw_running = True\<rparr>,
            sink = None, owner = Live\<rparr>
     = Some \<lparr>writer = \<lparr>mw_filename = filename, mw_queue = empty_queue,
                         mw_thread = Threw (''Error opening file: '' @ filename), mw_running = True\<rparr>,
            sink = None, owner = Live\<rparr>
   \<and> step ev
        \<lparr>writer = \<lparr>mw_filename = filename, mw_queue = empty_queue,
                         mw_thread = Threw (''Error opening file: '' @ filename), mw_running = True\<rparr>,
            sink = None, owner = Live\<rparr>
     = None"
  by (simp add: process_defs)

text \<open>C7 amended, on a path in a directory that does not exist.\<close>

theorem C7_open_failure_on_writer_thread_witness:
  "start None ''/no/such/dir/metrics.txt''
     = Inr \<lparr>writer = \<lparr>mw_filename = ''/no/such/dir/metrics.txt'', mw_queue = empty_queue,
                       mw_thread = AtOpen, mw_running = True\<rparr>,
            sink = None, owner = Live\<rparr>
   \<and> exec [RunStep ''t0'', Write [(''a'', ''1'')]]
        \<lparr>writer = \<lparr>mw_filename = ''/no/such/dir/metrics.txt'', mw_queue = empty_queue,
                     mw_thread = AtOpen, mw_running = True\<rparr>,
            sink = None, owner = Live\<rparr>
     = None"
  using C7_open_failure_on_writer_thread
    [of None "''/no/such/dir/metrics.txt''" "''t0''" "Write [(''a'', ''1'')]"]
  by simp

section \<open>Further properties\<close>

text \<open>
  Resetting is idempotent: a second \<^verbatim>\<open>reset()\<close> leaves the metric as the first one left
  it, reading as its zero, and a reset never changes the name.
\<close>

theorem reset_idempotent:
  "reset (reset m) = reset m
   \<and> getValueAsString (reset m) = zero_text m
   \<and> getValueAsString (reset (reset m)) = zero_text m
   \<and> getName (reset m) = getName m"
  by (simp add: reset_reset reset_reads_zero getName_reset)

text \<open>
  The destructor's order holds in every run of the process: from construction on,
  \<^verbatim>\<open>running_\<close> is true only while the destructor has not begun, and the queue is stopped
  only once the destructor has reached the join. So whenever the queue is stopped,
  \<^verbatim>\<open>running_\<close> is false.
\<close>

theorem shutdown_order_invariant:
  assumes "start file filename = Inr s0" and "exec evs s0 = Some s"
  shows "shutdown_order s
    \<and> (if tsq_stopped (mw_queue (writer s)) then mw_running (writer s) = False else True)"
proof -
  have so: "shutdown_order s"
    using exec_shutdown_order [OF assms(2) start_shutdown_order [OF assms(1)]] .
  then show ?thesis by (auto simp: shutdown_order_def)
qed

text \<open>The invariant on the run in which the owner has stopped the queue.\<close>

theorem shutdown_order_invariant_witness:
  "start (Some []) ''metrics.txt''
     = Inr \<lparr>writer = \<lparr>mw_filename = ''metrics.txt'', mw_queue = empty_queue, mw_thread = AtOpen,
                       mw_running = True\<rparr>,
            sink = Some [], owner = Live\<rparr>
   \<and> exec [RunStep ''t0'', Write [(''a'', ''1'')], DtorClearRunning, DtorStopQueue]
        \<lparr>writer = \<lparr>mw_filename = ''metrics.txt'', mw_queue = empty_queue, mw_thread = AtOpen,
                     mw_running = True\<rparr>,
          sink = Some [], owner = Live\<rparr>
     = Some \<lparr>writer = \<lparr>mw_filename = ''metrics.txt'',
                         mw_queue = \<lparr>tsq_queue = [[(''a'', ''1'')]], tsq_stopped = True\<rparr>,
                         mw_thread = AtLoopHead, mw_running = False\<rparr>,
              sink = Some [], owner = QueueStopped\<rparr>
   \<and> shutdown_order
        \<lparr>writer = \<lparr>mw_filename = ''metrics.txt'',
                         mw_queue = \<lparr>tsq_queue = [[(''a'', ''1'')]], tsq_stopped = True\<rparr>,
                         mw_thread = AtLoopHead, mw_running = False\<rparr>,
              sink = Some [], owner = QueueStopped\<rparr>"
proof -
  let ?init = "\<lparr>writer = \<lparr>mw_filename = ''metrics.txt'', mw_queue = empty_queue,
      mw_thread = AtOpen, mw_running = True\<rparr>, sink = Some [], owner = Live\<rparr>"
  let ?stopped = "\<lparr>writer = \<lparr>mw_filename = ''metrics.txt'',
      mw_queue = \<lparr>tsq_queue = [[(''a'', ''1'')]], tsq_stopped = True\<rparr>,
      mw_thread = AtLoopHead, mw_running = False\<rparr>, sink = Some [], owner = QueueStopped\<rparr>"
  have a: "start (Some []) ''metrics.txt'' = Inr ?init"
    by (simp add: start_def MetricsWriter_new_def)
  have b: "exec [RunStep ''t0'', Write [(''a'', ''1'')], DtorClearRunning, DtorStopQueue] ?init
      = Some ?stopped"
    by (simp add: queue_defs process_defs)
  from shutdown_order_invariant [OF a b] a b show ?thesis by blast
qed

text \<open>
  The repository's test from end to end: the collector of the test collects, the writer
  thread (asleep in \<^verbatim>\<open>waitAndPop\<close>) takes the snapshot and appends one line for it, and
  both metrics read as zero.
\<close>

theorem test_metrics_collector_round_trip:
  "map_option (\<lambda>(h', c'). (mc_writer c', reads_zero h' 0, reads_zero h' 1))
       (collectAndWrite test_store test_collector)
     = Some (\<lparr>mw_filename = ''test_metrics.txt'',
               mw_queue = \<lparr>tsq_queue = [[(''test_gauge_collector'', ''123.45''),
                                              (''test_counter_collector'', ''7'')]],
                           tsq_stopped = False\<rparr>,
               mw_thread = AtWaitAndPop, mw_running = True\<rparr>, True, True)
   \<and> exec [RunStep ''t1'', RunStep ''t1'', RunStep ''t1'']
        \<lparr>writer = \<lparr>mw_filename = ''test_metrics.txt'',
               mw_queue = \<lparr>tsq_queue = [[(''test_gauge_collector'', ''123.45''),
                                              (''test_counter_collector'', ''7'')]],
                           tsq_stopped = False\<rparr>,
               mw_thread = AtWaitAndPop, mw_running = True\<rparr>,
          sink = Some [], owner = Live\<rparr>
     = Some \<lparr>writer = \<lparr>mw_filename = ''test_metrics.txt'',
               mw_queue = \<lparr>tsq_queue = [], tsq_stopped = False\<rparr>,
               mw_thread = AtLoopHead, mw_running = True\<rparr>,
          sink = Some [format_line ''t1'' [(''test_gauge_collector'', ''123.45''),
                                            (''test_counter_collector'', ''7'')]],
          owner = Live\<rparr>
   \<and> format_line ''t1'' [(''test_gauge_collector'', ''123.45''), (''test_counter_collector'', ''7'')]
     = ''t1 '' @ [CHR 0x22] @ ''test_gauge_collector'' @ [CHR 0x22] @ '' 123.45 ''
         @ [CHR 0x22] @ ''test_counter_collector'' @ [CHR 0x22] @ '' 7'' @ [CHR 0x0A]"
  by (simp add: test_store_def test_collector_def addMetric_def collectAndWrite_alone reads_zero_def
        Gauge_getName_def Counter_getName_def Gauge_getValueAsString_def
        Counter_getValueAsString_def Gauge_reset_def Counter_reset_def
        format_line_def render_defs queue_defs process_defs)

end
